theory Spec2Isabelle
  imports Main "HOL-Library.Word"
begin

unbundle bit_operations_syntax

section \<open>Python values used by the client\<close>

text \<open>
  A Python \<open>str\<close> is a sequence of Unicode code points and a \<open>bytes\<close> object a sequence
  of octets. The two are kept apart, since the client decodes and encodes between them.
\<close>

type_synonym ustr = "nat list"
type_synonym byte = "8 word"

definition ascii :: "string \<Rightarrow> ustr" where
  "ascii s = map of_char s"

definition bytes_of :: "string \<Rightarrow> byte list" where
  "bytes_of s = map of_char s"

text \<open>The exceptions the client's code and the library calls it makes can raise.\<close>

datatype error =
    AttributeError
  | TypeError
  | ValueError
  | JSONDecodeError
  | UnicodeDecodeError
  | UnicodeEncodeError
  | BinasciiError
  | RequestFailed int

definition bind_err :: "error + 'a \<Rightarrow> ('a \<Rightarrow> error + 'b) \<Rightarrow> error + 'b" where
  "bind_err m f = (case m of Inl e \<Rightarrow> Inl e | Inr x \<Rightarrow> f x)"

text \<open>
  The values \<open>json.loads\<close> produces and the request body holds. A dict is an
  association list in insertion order with distinct keys. A float is kept as the decimal
  literal it was read from (sign, digits \<open>m\<close> and exponent \<open>e\<close> for \<open>m * 10^e\<close>).
\<close>

datatype pyval =
    PNone
  | PBool bool
  | PInt int
  | PFloat bool nat int
  | PNaN
  | PInf bool
  | PStr ustr
  | PList "pyval list"
  | PDict "(ustr \<times> pyval) list"

text \<open>\<open>d[k] = v\<close>: replaces the value of an existing key in place, else appends.\<close>

fun dict_set :: "(ustr \<times> pyval) list \<Rightarrow> ustr \<Rightarrow> pyval \<Rightarrow> (ustr \<times> pyval) list" where
  "dict_set [] k v = [(k, v)]"
| "dict_set ((k', v') # d) k v = (if k' = k then (k, v) # d else (k', v') # dict_set d k v)"

text \<open>\<open>obj.get(k, default)\<close>: only a dict has the method.\<close>

definition py_get :: "pyval \<Rightarrow> ustr \<Rightarrow> pyval \<Rightarrow> error + pyval" where
  "py_get obj k dflt =
     (case obj of
        PDict d \<Rightarrow> Inr (case map_of d k of Some v \<Rightarrow> v | None \<Rightarrow> dflt)
      | _ \<Rightarrow> Inl AttributeError)"

text \<open>\<open>acc += x\<close> on a \<open>str\<close> accumulator: only a \<open>str\<close> can be added.\<close>

definition py_add_str :: "ustr \<Rightarrow> pyval \<Rightarrow> error + ustr" where
  "py_add_str acc x = (case x of PStr s \<Rightarrow> Inr (acc @ s) | _ \<Rightarrow> Inl TypeError)"

section \<open>String operations\<close>

definition startswith :: "'a list \<Rightarrow> 'a list \<Rightarrow> bool" where
  "startswith s p = (take (length p) s = p)"

text \<open>\<open>sub in s\<close> on strings.\<close>

fun contains :: "'a list \<Rightarrow> 'a list \<Rightarrow> bool" where
  "contains [] sub = (sub = [])"
| "contains (c # cs) sub = (startswith (c # cs) sub \<or> contains cs sub)"

text \<open>The code points for which \<open>str.isspace\<close> holds; \<open>str.strip()\<close> removes them at both ends.\<close>

definition is_space :: "nat \<Rightarrow> bool" where
  "is_space c =
     ((9 \<le> c \<and> c \<le> 13) \<or> (28 \<le> c \<and> c \<le> 32) \<or> c = 133 \<or> c = 160 \<or> c = 5760
      \<or> (8192 \<le> c \<and> c \<le> 8202) \<or> c = 8232 \<or> c = 8233 \<or> c = 8239 \<or> c = 8287
      \<or> c = 12288)"

definition py_strip :: "ustr \<Rightarrow> ustr" where
  "py_strip s = rev (dropWhile is_space (rev (dropWhile is_space s)))"

text \<open>\<open>s.split(sep)\<close> for a one-character separator: always at least one part.\<close>

fun py_split :: "nat \<Rightarrow> ustr \<Rightarrow> ustr list" where
  "py_split sep [] = [[]]"
| "py_split sep (c # cs) =
     (if c = sep then [] # py_split sep cs
      else (case py_split sep cs of [] \<Rightarrow> [[c]] | p # ps \<Rightarrow> (c # p) # ps))"

text \<open>\<open>str(n)\<close> for an integer: decimal digits, with a minus sign when negative.\<close>

fun digits_of :: "nat \<Rightarrow> ustr" where
  "digits_of n = (if n < 10 then [48 + n] else digits_of (n div 10) @ [48 + n mod 10])"

declare digits_of.simps [simp del]

definition str_int :: "int \<Rightarrow> ustr" where
  "str_int i = (if i < 0 then 45 # digits_of (nat (- i)) else digits_of (nat i))"

text \<open>
  What the interpreter supplies and this development does not compute: the lower-case
  mapping of non-ASCII code points (the Unicode database; it may look at the context, as for
  the final sigma), the text \<open>str()\<close> gives for floats, lists and dicts, a fresh UUID, and the
  formatted current time.
\<close>

record runtime =
  unicode_lower :: "ustr \<Rightarrow> nat \<Rightarrow> ustr"
  repr_other :: "pyval \<Rightarrow> ustr"
  uuid4 :: ustr
  now_strftime :: "ustr \<Rightarrow> ustr"

definition ascii_lower :: "nat \<Rightarrow> nat" where
  "ascii_lower c = (if 65 \<le> c \<and> c \<le> 90 then c + 32 else c)"

definition lower_at :: "runtime \<Rightarrow> ustr \<Rightarrow> nat \<Rightarrow> ustr" where
  "lower_at rt s i = (if s ! i < 128 then [ascii_lower (s ! i)] else unicode_lower rt s i)"

text \<open>\<open>s.lower()\<close>: each code point is replaced by its lower-case mapping.\<close>

definition py_lower :: "runtime \<Rightarrow> ustr \<Rightarrow> ustr" where
  "py_lower rt s = concat (map (lower_at rt s) [0..<length s])"

section \<open>Request Assembler\<close>

definition MODEL_MAPPING :: "(ustr \<times> ustr) list" where
  "MODEL_MAPPING =
     [(ascii ''GLM-4.5'', ascii ''0727-360B-API''),
      (ascii ''GLM-4.5-Thinking'', ascii ''0727-360B-API''),
      (ascii ''GLM-4.5-Search'', ascii ''0727-360B-API''),
      (ascii ''GLM-4.5-Air'', ascii ''0727-106B-API''),
      (ascii ''GLM-4.6'', ascii ''GLM-4-6-API-V1''),
      (ascii ''GLM-4.6-Thinking'', ascii ''GLM-4-6-API-V1''),
      (ascii ''GLM-4.6-Search'', ascii ''GLM-4-6-API-V1'')]"

text \<open>\<open>MODEL_MAPPING.get(model, "0727-360B-API")\<close>\<close>

definition upstream_model_id :: "ustr \<Rightarrow> ustr" where
  "upstream_model_id model =
     (case map_of MODEL_MAPPING model of Some v \<Rightarrow> v | None \<Rightarrow> ascii ''0727-360B-API'')"

definition is_thinking :: "runtime \<Rightarrow> ustr \<Rightarrow> bool" where
  "is_thinking rt model = contains (py_lower rt model) (ascii ''thinking'')"

definition is_search :: "runtime \<Rightarrow> ustr \<Rightarrow> bool" where
  "is_search rt model = contains (py_lower rt model) (ascii ''search'')"

definition mcp_servers :: "runtime \<Rightarrow> ustr \<Rightarrow> pyval list" where
  "mcp_servers rt model =
     (if is_search rt model \<and> contains model (ascii ''4.5'')
      then [PStr (ascii ''deep-web-search'')] else [])"

text \<open>The dict literal of \<open>_build_request_body\<close>, before the optional parameters are added.\<close>

definition body_literal ::
  "runtime \<Rightarrow> pyval \<Rightarrow> ustr \<Rightarrow> ustr \<Rightarrow> (ustr \<times> pyval) list \<Rightarrow> (ustr \<times> pyval) list" where
  "body_literal rt messages model chat_id kwargs =
     [(ascii ''stream'',
         (case map_of kwargs (ascii ''stream'') of Some v \<Rightarrow> v | None \<Rightarrow> PBool True)),
      (ascii ''model'', PStr (upstream_model_id model)),
      (ascii ''messages'', messages),
      (ascii ''params'', PDict []),
      (ascii ''features'', PDict
         [(ascii ''image_generation'', PBool False),
          (ascii ''web_search'', PBool (is_search rt model)),
          (ascii ''auto_web_search'', PBool (is_search rt model)),
          (ascii ''preview_mode'', PBool False),
          (ascii ''flags'', PList []),
          (ascii ''features'', PList []),
          (ascii ''enable_thinking'', PBool (is_thinking rt model))]),
      (ascii ''background_tasks'', PDict
         [(ascii ''title_generation'', PBool False),
          (ascii ''tags_generation'', PBool False)]),
      (ascii ''mcp_servers'', PList (mcp_servers rt model)),
      (ascii ''variables'', PDict
         [(ascii ''{{USER_NAME}}'', PStr (ascii ''Guest'')),
          (ascii ''{{USER_LOCATION}}'', PStr (ascii ''Unknown'')),
          (ascii ''{{CURRENT_DATETIME}}'', PStr (now_strftime rt (ascii ''%Y-%m-%d %H:%M:%S''))),
          (ascii ''{{CURRENT_DATE}}'', PStr (now_strftime rt (ascii ''%Y-%m-%d''))),
          (ascii ''{{CURRENT_TIME}}'', PStr (now_strftime rt (ascii ''%H:%M:%S''))),
          (ascii ''{{CURRENT_WEEKDAY}}'', PStr (now_strftime rt (ascii ''%A''))),
          (ascii ''{{CURRENT_TIMEZONE}}'', PStr (ascii ''Asia/Shanghai'')),
          (ascii ''{{USER_LANGUAGE}}'', PStr (ascii ''zh-CN''))]),
      (ascii ''model_item'', PDict
         [(ascii ''id'', PStr (upstream_model_id model)),
          (ascii ''name'', PStr model),
          (ascii ''owned_by'', PStr (ascii ''z.ai''))]),
      (ascii ''chat_id'', PStr chat_id),
      (ascii ''id'', PStr (uuid4 rt))]"

text \<open>\<open>body["params"][k] = v\<close>\<close>

definition set_param :: "(ustr \<times> pyval) list \<Rightarrow> ustr \<Rightarrow> pyval \<Rightarrow> (ustr \<times> pyval) list" where
  "set_param body k v =
     (case map_of body (ascii ''params'') of
        Some (PDict ps) \<Rightarrow> dict_set body (ascii ''params'') (PDict (dict_set ps k v))
      | _ \<Rightarrow> body)"

definition build_request_body ::
  "runtime \<Rightarrow> pyval \<Rightarrow> ustr \<Rightarrow> ustr \<Rightarrow> (ustr \<times> pyval) list \<Rightarrow> (ustr \<times> pyval) list" where
  "build_request_body rt messages model chat_id kwargs =
     (let body0 = body_literal rt messages model chat_id kwargs;
          body1 = (case map_of kwargs (ascii ''temperature'') of
                     Some v \<Rightarrow> set_param body0 (ascii ''temperature'') v | None \<Rightarrow> body0);
          body2 = (case map_of kwargs (ascii ''max_tokens'') of
                     Some v \<Rightarrow> set_param body1 (ascii ''max_tokens'') v | None \<Rightarrow> body1);
          body3 = (case map_of kwargs (ascii ''tools'') of
                     Some v \<Rightarrow> (if \<not> is_thinking rt model
                                then dict_set body2 (ascii ''tools'') v else body2)
                   | None \<Rightarrow> body2)
      in body3)"

text \<open>A runtime for the concrete examples: no non-ASCII case mapping, fixed UUID and clock.\<close>

definition example_runtime :: runtime where
  "example_runtime =
     \<lparr>unicode_lower = (\<lambda>s i. [s ! i]), repr_other = (\<lambda>v. ascii ''?''),
      uuid4 = ascii ''00000000-0000-4000-8000-000000000000'',
      now_strftime = (\<lambda>fmt. fmt)\<rparr>"



section \<open>Codecs\<close>

text \<open>
  One step of the UTF-8 decoder on the lead byte \<open>b0\<close> and the bytes after it: either a code
  point and the number of continuation bytes it took, or an ill-formed sequence and the
  number of bytes after \<open>b0\<close> that belong to it. Overlong forms, surrogates and code points
  above \<open>0x10FFFF\<close> are ill-formed; a sequence cut off by the end of the input is ill-formed
  up to the end.
\<close>

datatype utf8_step = Decoded nat nat | Invalid nat

definition is_cont :: "byte \<Rightarrow> bool" where
  "is_cont b = (0x80 \<le> b \<and> b \<le> 0xBF)"

definition cont_bits :: "byte \<Rightarrow> nat" where
  "cont_bits b = unat (b AND 0x3F)"

definition utf8_next :: "byte \<Rightarrow> byte list \<Rightarrow> utf8_step" where
  "utf8_next b0 rest =
     (if b0 < 0x80 then Decoded (unat b0) 0
      else if b0 < 0xC2 then Invalid 0
      else if b0 < 0xE0 then
        (case rest of
           [] \<Rightarrow> Invalid 0
         | b1 # _ \<Rightarrow>
             if is_cont b1 then Decoded (unat (b0 AND 0x1F) * 64 + cont_bits b1) 1
             else Invalid 0)
      else if b0 < 0xF0 then
        (case rest of
           [] \<Rightarrow> Invalid 0
         | b1 # r1 \<Rightarrow>
             if \<not> is_cont b1 \<or> (b0 = 0xE0 \<and> b1 < 0xA0) \<or> (b0 = 0xED \<and> 0xA0 \<le> b1)
             then Invalid 0
             else (case r1 of
                     [] \<Rightarrow> Invalid 1
                   | b2 # _ \<Rightarrow>
                       if is_cont b2
                       then Decoded (unat (b0 AND 0x0F) * 4096 + cont_bits b1 * 64 + cont_bits b2) 2
                       else Invalid 1))
      else if b0 < 0xF5 then
        (case rest of
           [] \<Rightarrow> Invalid 0
         | b1 # r1 \<Rightarrow>
             if \<not> is_cont b1 \<or> (b0 = 0xF0 \<and> b1 < 0x90) \<or> (b0 = 0xF4 \<and> 0x90 \<le> b1)
             then Invalid 0
             else (case r1 of
                     [] \<Rightarrow> Invalid 1
                   | b2 # r2 \<Rightarrow>
                       if \<not> is_cont b2 then Invalid 1
                       else (case r2 of
                               [] \<Rightarrow> Invalid 2
                             | b3 # _ \<Rightarrow>
                                 if is_cont b3
                                 then Decoded (unat (b0 AND 0x07) * 262144 + cont_bits b1 * 4096
                                               + cont_bits b2 * 64 + cont_bits b3) 3
                                 else Invalid 2)))
      else Invalid 0)"

text \<open>
  \<open>bs.decode("utf-8")\<close> raises at the first ill-formed sequence;
  \<open>bs.decode("utf-8", errors="ignore")\<close> leaves it out and goes on.
\<close>

datatype decode_errors = Strict | Ignore

fun utf8_decode :: "decode_errors \<Rightarrow> byte list \<Rightarrow> error + ustr" where
  "utf8_decode errors [] = Inr []"
| "utf8_decode errors (b0 # rest) =
     (case utf8_next b0 rest of
        Decoded cp k \<Rightarrow>
          (case utf8_decode errors (drop k rest) of
             Inl e \<Rightarrow> Inl e
           | Inr s \<Rightarrow> Inr (cp # s))
      | Invalid k \<Rightarrow>
          (if errors = Ignore then utf8_decode errors (drop k rest)
           else Inl UnicodeDecodeError))"

text \<open>\<open>bs.decode("latin-1")\<close>: one code point for each byte; it accepts every input.\<close>

definition latin1_decode :: "byte list \<Rightarrow> error + ustr" where
  "latin1_decode bs = Inr (map unat bs)"

section \<open>Stream Decoder\<close>

text \<open>
  What \<open>requests.post(..., stream=True)\<close> hands back: the status and the lines
  \<open>iter_lines(decode_unicode=False)\<close> delivers, as raw bytes.
\<close>

record response =
  status_code :: int
  iter_lines :: "byte list list"

text \<open>
  The loop of \<open>_stream_request\<close>, as the list of the strings it yields: an empty line yields
  nothing; otherwise the line decoded as UTF-8, or as Latin-1 when that raises
  \<open>UnicodeDecodeError\<close>, with a newline (code point 10) appended; a line that the second
  decoder rejects too is passed over.
\<close>

fun decoded_lines :: "byte list list \<Rightarrow> ustr list" where
  "decoded_lines [] = []"
| "decoded_lines (line # rest) =
     (if line \<noteq> [] then
        (case utf8_decode Strict line of
           Inr decoded_line \<Rightarrow> (decoded_line @ [10]) # decoded_lines rest
         | Inl _ \<Rightarrow>
             (case latin1_decode line of
                Inr decoded_line \<Rightarrow> (decoded_line @ [10]) # decoded_lines rest
              | Inl _ \<Rightarrow> decoded_lines rest))
      else decoded_lines rest)"

definition stream_request :: "response \<Rightarrow> error + ustr list" where
  "stream_request resp =
     (if status_code resp \<noteq> 200 then Inl (RequestFailed (status_code resp))
      else Inr (decoded_lines (iter_lines resp)))"

section \<open>The JSON reader\<close>

text \<open>
  \<open>json.loads\<close> on a \<open>str\<close>, in two passes over the text: the lexical elements first
  (strings with their escapes, numbers, the literals, the six structural characters, with
  blanks, tabs, line feeds and carriage returns allowed between them), then the nesting of
  arrays and objects with a stack. It accepts what the library's scanner accepts, the
  literals \<open>NaN\<close>, \<open>Infinity\<close> and \<open>-Infinity\<close> included. The interpreter's resource limits
  (recursion depth, digits of an integer) are not part of it.
\<close>

definition is_digit :: "nat \<Rightarrow> bool" where
  "is_digit c = (48 \<le> c \<and> c \<le> 57)"

definition digits_val :: "ustr \<Rightarrow> nat" where
  "digits_val ds = foldl (\<lambda>a c. 10 * a + (c - 48)) 0 ds"

definition hex_val :: "nat \<Rightarrow> nat option" where
  "hex_val c =
     (if 48 \<le> c \<and> c \<le> 57 then Some (c - 48)
      else if 97 \<le> c \<and> c \<le> 102 then Some (c - 87)
      else if 65 \<le> c \<and> c \<le> 70 then Some (c - 55)
      else None)"

text \<open>The value of the four hexadecimal digits a \<open>\uXXXX\<close> escape needs.\<close>

definition hex4 :: "ustr \<Rightarrow> nat option" where
  "hex4 s =
     (case s of
        a # b # c # d # _ \<Rightarrow>
          (case (hex_val a, hex_val b, hex_val c, hex_val d) of
             (Some x, Some y, Some z, Some w) \<Rightarrow> Some (((x * 16 + y) * 16 + z) * 16 + w)
           | _ \<Rightarrow> None)
      | _ \<Rightarrow> None)"

definition escape_char :: "nat \<Rightarrow> nat option" where
  "escape_char e =
     (if e = 34 then Some 34 else if e = 92 then Some 92 else if e = 47 then Some 47
      else if e = 98 then Some 8 else if e = 102 then Some 12 else if e = 110 then Some 10
      else if e = 114 then Some 13 else if e = 116 then Some 9 else None)"

definition add_char :: "nat \<Rightarrow> nat \<Rightarrow> (ustr \<times> nat) option \<Rightarrow> (ustr \<times> nat) option" where
  "add_char ch n r = (case r of None \<Rightarrow> None | Some (s, m) \<Rightarrow> Some (ch # s, n + m))"

text \<open>
  The text after an opening quote: the string it denotes and the number of code points up
  to and including the closing quote. A high surrogate escape followed by a low surrogate
  escape is one code point; any other surrogate escape stays as it is. Control characters
  must be escaped.
\<close>

fun scan_string :: "ustr \<Rightarrow> (ustr \<times> nat) option" where
  "scan_string [] = None"
| "scan_string (c # cs) =
     (if c = 34 then Some ([], 1)
      else if c = 92 then
        (case cs of
           [] \<Rightarrow> None
         | e # es \<Rightarrow>
             if e = 117 then
               (case hex4 es of
                  None \<Rightarrow> None
                | Some uni \<Rightarrow>
                    if 0xD800 \<le> uni \<and> uni \<le> 0xDBFF \<and> startswith (drop 4 es) [92, 117] then
                      (case hex4 (drop 6 es) of
                         None \<Rightarrow> None
                       | Some uni2 \<Rightarrow>
                           if 0xDC00 \<le> uni2 \<and> uni2 \<le> 0xDFFF
                           then add_char (0x10000 + ((uni - 0xD800) * 1024 + (uni2 - 0xDC00))) 12
                                  (scan_string (drop 10 es))
                           else add_char uni 6 (scan_string (drop 4 es)))
                    else add_char uni 6 (scan_string (drop 4 es)))
             else
               (case escape_char e of
                  None \<Rightarrow> None
                | Some ch \<Rightarrow> add_char ch 2 (scan_string es)))
      else if c < 32 then None
      else add_char c 1 (scan_string cs))"

text \<open>
  A number at the start of the text, by the grammar
  \<open>-?(0|[1-9][0-9]*)(\.[0-9]+)?([eE][-+]?[0-9]+)?\<close>: its value and its length. Without
  fraction and exponent it is an \<open>int\<close>, else a \<open>float\<close>.
\<close>

definition lex_number :: "ustr \<Rightarrow> (pyval \<times> nat) option" where
  "lex_number s =
     (let neg = startswith s [45];
          r0 = (if neg then drop 1 s else s);
          ds = takeWhile is_digit r0
      in if ds = [] then None
         else
           let ip = (if hd ds = 48 then [48] else ds);
               r1 = drop (length ip) r0;
               fr = (case r1 of [] \<Rightarrow> [] | c # r \<Rightarrow> if c = 46 then takeWhile is_digit r else []);
               r2 = (if fr = [] then r1 else drop (1 + length fr) r1);
               has_e = (case r2 of [] \<Rightarrow> False | c # r \<Rightarrow> c = 101 \<or> c = 69);
               r3 = drop 1 r2;
               esign = (case r3 of [] \<Rightarrow> False | c # r \<Rightarrow> c = 43 \<or> c = 45);
               eneg = startswith r3 [45];
               ex = (if has_e then takeWhile is_digit (if esign then drop 1 r3 else r3) else []);
               n = (if neg then 1 else 0) + length ip + (if fr = [] then 0 else 1 + length fr)
                   + (if ex = [] then 0 else 1 + (if esign then 1 else 0) + length ex)
           in if fr = [] \<and> ex = []
              then Some (PInt (if neg then - int (digits_val ip) else int (digits_val ip)), n)
              else Some (PFloat neg (digits_val (ip @ fr))
                           ((if eneg then - int (digits_val ex) else int (digits_val ex))
                            - int (length fr)), n))"

datatype token = TLBrace | TRBrace | TLBracket | TRBracket | TComma | TColon | TScalar pyval

definition cons_tok :: "token \<Rightarrow> token list option \<Rightarrow> token list option" where
  "cons_tok t r = (case r of None \<Rightarrow> None | Some ts \<Rightarrow> Some (t # ts))"

fun tokenize :: "ustr \<Rightarrow> token list option" where
  "tokenize [] = Some []"
| "tokenize (c # cs) =
     (if c = 32 \<or> c = 9 \<or> c = 10 \<or> c = 13 then tokenize cs
      else if c = 123 then cons_tok TLBrace (tokenize cs)
      else if c = 125 then cons_tok TRBrace (tokenize cs)
      else if c = 91 then cons_tok TLBracket (tokenize cs)
      else if c = 93 then cons_tok TRBracket (tokenize cs)
      else if c = 44 then cons_tok TComma (tokenize cs)
      else if c = 58 then cons_tok TColon (tokenize cs)
      else if c = 34 then
        (case scan_string cs of
           None \<Rightarrow> None
         | Some (s, n) \<Rightarrow> cons_tok (TScalar (PStr s)) (tokenize (drop n cs)))
      else if startswith (c # cs) (ascii ''null'') then
        cons_tok (TScalar PNone) (tokenize (drop 3 cs))
      else if startswith (c # cs) (ascii ''true'') then
        cons_tok (TScalar (PBool True)) (tokenize (drop 3 cs))
      else if startswith (c # cs) (ascii ''false'') then
        cons_tok (TScalar (PBool False)) (tokenize (drop 4 cs))
      else
        (case lex_number (c # cs) of
           Some (v, n) \<Rightarrow> cons_tok (TScalar v) (tokenize (drop (n - 1) cs))
         | None \<Rightarrow>
             if startswith (c # cs) (ascii ''NaN'') then
               cons_tok (TScalar PNaN) (tokenize (drop 2 cs))
             else if startswith (c # cs) (ascii ''Infinity'') then
               cons_tok (TScalar (PInf False)) (tokenize (drop 7 cs))
             else if startswith (c # cs) (ascii ''-Infinity'') then
               cons_tok (TScalar (PInf True)) (tokenize (drop 8 cs))
             else None))"

text \<open>
  The nesting: what the reader waits for, and the arrays and objects that are open, the
  innermost first. An object that has read a key holds it until the value arrives; a key
  that comes again replaces the earlier value.
\<close>

datatype pstate =
    ExpectValue | ExpectValueOrEnd | ExpectKeyOrEnd | ExpectKey | ExpectColon | HaveValue pyval

datatype container = InArray "pyval list" | InObject "(ustr \<times> pyval) list" "ustr option"

definition begin_value :: "token \<Rightarrow> container list \<Rightarrow> (pstate \<times> container list) option" where
  "begin_value t stack =
     (case t of
        TScalar v \<Rightarrow> Some (HaveValue v, stack)
      | TLBracket \<Rightarrow> Some (ExpectValueOrEnd, InArray [] # stack)
      | TLBrace \<Rightarrow> Some (ExpectKeyOrEnd, InObject [] None # stack)
      | _ \<Rightarrow> None)"

definition read_key :: "token \<Rightarrow> container list \<Rightarrow> (pstate \<times> container list) option" where
  "read_key t stack =
     (case t of
        TScalar (PStr k) \<Rightarrow>
          (case stack of
             InObject pairs _ # rest \<Rightarrow> Some (ExpectColon, InObject pairs (Some k) # rest)
           | _ \<Rightarrow> None)
      | _ \<Rightarrow> None)"

definition parse_step ::
  "pstate \<Rightarrow> container list \<Rightarrow> token \<Rightarrow> (pstate \<times> container list) option" where
  "parse_step st stack t =
     (case st of
        ExpectValue \<Rightarrow> begin_value t stack
      | ExpectValueOrEnd \<Rightarrow>
          (if t = TRBracket then
             (case stack of
                InArray items # rest \<Rightarrow> Some (HaveValue (PList items), rest)
              | _ \<Rightarrow> None)
           else begin_value t stack)
      | ExpectKeyOrEnd \<Rightarrow>
          (if t = TRBrace then
             (case stack of
                InObject pairs _ # rest \<Rightarrow> Some (HaveValue (PDict pairs), rest)
              | _ \<Rightarrow> None)
           else read_key t stack)
      | ExpectKey \<Rightarrow> read_key t stack
      | ExpectColon \<Rightarrow> (if t = TColon then Some (ExpectValue, stack) else None)
      | HaveValue v \<Rightarrow>
          (case stack of
             [] \<Rightarrow> None
           | InArray items # rest \<Rightarrow>
               (if t = TComma then Some (ExpectValue, InArray (items @ [v]) # rest)
                else if t = TRBracket then Some (HaveValue (PList (items @ [v])), rest)
                else None)
           | InObject pairs None # rest \<Rightarrow> None
           | InObject pairs (Some k) # rest \<Rightarrow>
               (if t = TComma then Some (ExpectKey, InObject (dict_set pairs k v) None # rest)
                else if t = TRBrace then Some (HaveValue (PDict (dict_set pairs k v)), rest)
                else None)))"

fun parse_tokens :: "pstate \<Rightarrow> container list \<Rightarrow> token list \<Rightarrow> pyval option" where
  "parse_tokens st stack [] =
     (case st of HaveValue v \<Rightarrow> (if stack = [] then Some v else None) | _ \<Rightarrow> None)"
| "parse_tokens st stack (t # ts) =
     (case parse_step st stack t of
        None \<Rightarrow> None
      | Some (st', stack') \<Rightarrow> parse_tokens st' stack' ts)"

definition json_loads :: "ustr \<Rightarrow> error + pyval" where
  "json_loads s =
     (if startswith s [0xFEFF] then Inl JSONDecodeError
      else
        (case tokenize s of
           None \<Rightarrow> Inl JSONDecodeError
         | Some ts \<Rightarrow>
             (case parse_tokens ExpectValue [] ts of
                None \<Rightarrow> Inl JSONDecodeError
              | Some v \<Rightarrow> Inr v)))"

section \<open>Response Aggregator\<close>

text \<open>
  The \<open>try\<close> block of \<open>get_content_from_chunk\<close>: \<open>Some v\<close> when it returns \<open>v\<close>, \<open>None\<close>
  when the type test fails and control leaves the block, \<open>Inl\<close> when a call in it raises.
\<close>

definition chunk_try :: "ustr \<Rightarrow> error + pyval option" where
  "chunk_try data_str =
     bind_err (json_loads data_str) (\<lambda>parsed.
     bind_err (py_get parsed (ascii ''type'') PNone) (\<lambda>t.
       if t = PStr (ascii ''chat:completion'') then
         bind_err (py_get parsed (ascii ''data'') (PDict [])) (\<lambda>data.
         bind_err (py_get data (ascii ''delta_content'') (PStr [])) (\<lambda>d.
         Inr (Some d)))
       else Inr None))"

definition get_content_from_chunk :: "ustr \<Rightarrow> pyval" where
  "get_content_from_chunk chunk =
     (if startswith chunk (ascii ''data: '') then
        (let data_str = py_strip (drop 6 chunk)
         in if data_str \<notin> set [ascii ''[DONE]'', []] then
              (case chunk_try data_str of
                 Inr (Some v) \<Rightarrow> v
               | Inr None \<Rightarrow> PStr []
               | Inl _ \<Rightarrow> PStr [])
            else PStr [])
      else PStr [])"

text \<open>
  The \<open>try\<close> block of the loop of \<open>_non_stream_request\<close> on the accumulators
  \<open>(full_content, reasoning_content)\<close>: the new accumulators, or the exception raised.
\<close>

definition line_try :: "ustr \<Rightarrow> ustr \<times> ustr \<Rightarrow> error + ustr \<times> ustr" where
  "line_try data_str acc =
     bind_err (json_loads data_str) (\<lambda>chunk.
     bind_err (py_get chunk (ascii ''type'') PNone) (\<lambda>t.
       if t = PStr (ascii ''chat:completion'') then
         bind_err (py_get chunk (ascii ''data'') (PDict [])) (\<lambda>data.
         bind_err (py_get data (ascii ''phase'') PNone) (\<lambda>phase.
           if phase = PStr (ascii ''thinking'') then
             bind_err (py_get data (ascii ''delta_content'') (PStr [])) (\<lambda>d.
             bind_err (py_add_str (snd acc) d) (\<lambda>r. Inr (fst acc, r)))
           else if phase = PStr (ascii ''answer'') then
             bind_err (py_get data (ascii ''delta_content'') (PStr [])) (\<lambda>d.
             bind_err (py_add_str (fst acc) d) (\<lambda>c. Inr (c, snd acc)))
           else Inr acc))
       else Inr acc))"

fun aggregate :: "ustr list \<Rightarrow> ustr \<times> ustr \<Rightarrow> ustr \<times> ustr" where
  "aggregate [] acc = acc"
| "aggregate (line # rest) acc =
     (if \<not> startswith line (ascii ''data: '') then aggregate rest acc
      else if py_strip (drop 6 line) \<in> set [ascii ''[DONE]'', []] then aggregate rest acc
      else
        (case line_try (py_strip (drop 6 line)) acc of
           Inl _ \<Rightarrow> aggregate rest acc
         | Inr acc' \<Rightarrow> aggregate rest acc'))"

record aggregated =
  content :: ustr
  reasoning_content :: "ustr option"

definition non_stream_request :: "response \<Rightarrow> error + aggregated" where
  "non_stream_request resp =
     (case stream_request resp of
        Inl e \<Rightarrow> Inl e
      | Inr lines \<Rightarrow>
          (case aggregate lines ([], []) of
             (fc, rc) \<Rightarrow>
               Inr \<lparr>content = py_strip fc,
                    reasoning_content = (if rc \<noteq> [] then Some (py_strip rc) else None)\<rparr>))"

text \<open>
  The aggregation as the specification words it: each line is an event; a \<open>data: \<close> frame
  whose JSON is an object with \<open>type == "chat:completion"\<close> and a \<open>data\<close> object is a
  thinking or an answer event by its \<open>phase\<close>, carrying its \<open>delta_content\<close> (the empty text
  when the field is absent); everything else is ignored. The result holds the answer deltas
  and the thinking deltas, each joined in order and trimmed.
\<close>

datatype event = Thinking ustr | Answer ustr | Ignored

definition delta_text :: "(ustr \<times> pyval) list \<Rightarrow> ustr option" where
  "delta_text data =
     (case map_of data (ascii ''delta_content'') of
        None \<Rightarrow> Some []
      | Some (PStr d) \<Rightarrow> Some d
      | Some _ \<Rightarrow> None)"

definition payload_event :: "ustr \<Rightarrow> event" where
  "payload_event data_str =
     (case json_loads data_str of
        Inr (PDict chunk) \<Rightarrow>
          (if map_of chunk (ascii ''type'') = Some (PStr (ascii ''chat:completion'')) then
             (case map_of chunk (ascii ''data'') of
                Some (PDict data) \<Rightarrow>
                  (case delta_text data of
                     None \<Rightarrow> Ignored
                   | Some d \<Rightarrow>
                       if map_of data (ascii ''phase'') = Some (PStr (ascii ''thinking''))
                       then Thinking d
                       else if map_of data (ascii ''phase'') = Some (PStr (ascii ''answer''))
                       then Answer d
                       else Ignored)
              | _ \<Rightarrow> Ignored)
           else Ignored)
      | _ \<Rightarrow> Ignored)"

definition frame_event :: "ustr \<Rightarrow> event" where
  "frame_event line =
     (if startswith line (ascii ''data: '') then payload_event (py_strip (drop 6 line))
      else Ignored)"

fun answer_delta :: "event \<Rightarrow> ustr" where
  "answer_delta (Answer d) = d"
| "answer_delta _ = []"

fun thinking_delta :: "event \<Rightarrow> ustr" where
  "thinking_delta (Thinking d) = d"
| "thinking_delta _ = []"

definition spec_aggregate :: "ustr list \<Rightarrow> aggregated" where
  "spec_aggregate lines =
     (let content_acc = concat (map (\<lambda>l. answer_delta (frame_event l)) lines);
          reasoning_acc = concat (map (\<lambda>l. thinking_delta (frame_event l)) lines)
      in \<lparr>content = py_strip content_acc,
          reasoning_content =
            (if reasoning_acc \<noteq> [] then Some (py_strip reasoning_acc) else None)\<rparr>)"

section \<open>Identity Extractor\<close>

text \<open>
  \<open>base64.urlsafe_b64decode\<close> on a \<open>str\<close>. A code point outside ASCII raises
  \<open>ValueError\<close>. The decoder then runs without validation: \<open>-\<close> and \<open>_\<close> stand for \<open>+\<close>
  and \<open>/\<close>, a character outside the alphabet is discarded, a \<open>=\<close> ends the data once the
  current group of four is complete with it, and the input must not end inside a group.
\<close>

definition b64_value :: "nat \<Rightarrow> nat option" where
  "b64_value c =
     (if 65 \<le> c \<and> c \<le> 90 then Some (c - 65)
      else if 97 \<le> c \<and> c \<le> 122 then Some (c - 71)
      else if 48 \<le> c \<and> c \<le> 57 then Some (c + 4)
      else if c = 43 \<or> c = 45 then Some 62
      else if c = 47 \<or> c = 95 then Some 63
      else None)"

fun a2b_base64 :: "ustr \<Rightarrow> nat \<Rightarrow> nat \<Rightarrow> nat \<Rightarrow> byte list \<Rightarrow> error + byte list" where
  "a2b_base64 [] quad_pos leftchar pads out =
     (if quad_pos \<noteq> 0 then Inl BinasciiError else Inr out)"
| "a2b_base64 (c # cs) quad_pos leftchar pads out =
     (if c = 61 then
        (if 2 \<le> quad_pos \<and> 4 \<le> quad_pos + (pads + 1) then Inr out
         else a2b_base64 cs quad_pos leftchar (if 2 \<le> quad_pos then pads + 1 else pads) out)
      else
        (case b64_value c of
           None \<Rightarrow> a2b_base64 cs quad_pos leftchar pads out
         | Some v \<Rightarrow>
             if quad_pos = 0 then a2b_base64 cs 1 v 0 out
             else if quad_pos = 1 then
               a2b_base64 cs 2 (v mod 16) 0 (out @ [of_nat (leftchar * 4 + v div 16)])
             else if quad_pos = 2 then
               a2b_base64 cs 3 (v mod 4) 0 (out @ [of_nat (leftchar * 16 + v div 4)])
             else a2b_base64 cs 0 0 0 (out @ [of_nat (leftchar * 64 + v)])))"

definition urlsafe_b64decode :: "ustr \<Rightarrow> error + byte list" where
  "urlsafe_b64decode s =
     (if list_all (\<lambda>c. c < 128) s then a2b_base64 s 0 0 0 [] else Inl ValueError)"

text \<open>
  The truth value of a value. A float is false when it is zero: the decimal \<open>m * 10^e\<close>
  it was read from rounds to zero exactly when it is at most \<open>2^-1075\<close>.
\<close>

definition float_nonzero :: "nat \<Rightarrow> int \<Rightarrow> bool" where
  "float_nonzero m e = (if 0 \<le> e then m \<noteq> 0 else 10 ^ nat (- e) < m * 2 ^ 1075)"

fun truthy :: "pyval \<Rightarrow> bool" where
  "truthy PNone = False"
| "truthy (PBool b) = b"
| "truthy (PInt i) = (i \<noteq> 0)"
| "truthy (PFloat neg m e) = float_nonzero m e"
| "truthy PNaN = True"
| "truthy (PInf neg) = True"
| "truthy (PStr s) = (s \<noteq> [])"
| "truthy (PList xs) = (xs \<noteq> [])"
| "truthy (PDict d) = (d \<noteq> [])"

text \<open>\<open>str(v)\<close>; for a float, a list or a dict it is what the interpreter prints.\<close>

definition py_str :: "runtime \<Rightarrow> pyval \<Rightarrow> ustr" where
  "py_str rt v =
     (case v of
        PStr s \<Rightarrow> s
      | PInt i \<Rightarrow> str_int i
      | PBool b \<Rightarrow> (if b then ascii ''True'' else ascii ''False'')
      | PNone \<Rightarrow> ascii ''None''
      | PNaN \<Rightarrow> ascii ''nan''
      | PInf neg \<Rightarrow> (if neg then ascii ''-inf'' else ascii ''inf'')
      | _ \<Rightarrow> repr_other rt v)"

definition claim_keys :: "ustr list" where
  "claim_keys = [ascii ''id'', ascii ''user_id'', ascii ''uid'', ascii ''sub'']"

text \<open>The loop over the candidate keys, and the \<open>return "guest"\<close> after it.\<close>

fun first_claim :: "runtime \<Rightarrow> pyval \<Rightarrow> ustr list \<Rightarrow> error + ustr" where
  "first_claim rt payload [] = Inr (ascii ''guest'')"
| "first_claim rt payload (key # keys) =
     (case py_get payload key PNone of
        Inl e \<Rightarrow> Inl e
      | Inr val \<Rightarrow> if truthy val then Inr (py_str rt val) else first_claim rt payload keys)"

text \<open>The \<open>try\<close> block of \<open>_extract_user_id_from_token\<close>: the value returned or the exception.\<close>

definition extract_try :: "runtime \<Rightarrow> ustr \<Rightarrow> error + ustr" where
  "extract_try rt token =
     (let parts = py_split 46 token
      in if length parts < 2 then Inr (ascii ''guest'')
         else
           let payload_raw = parts ! 1;
               padding = replicate (nat ((- int (length payload_raw)) mod 4)) 61
           in bind_err (urlsafe_b64decode (payload_raw @ padding)) (\<lambda>payload_bytes.
              bind_err (utf8_decode Ignore payload_bytes) (\<lambda>text.
              bind_err (json_loads text) (\<lambda>payload.
              first_claim rt payload claim_keys))))"

definition extract_user_id_from_token :: "runtime \<Rightarrow> ustr \<Rightarrow> ustr" where
  "extract_user_id_from_token rt token =
     (case extract_try rt token of Inl _ \<Rightarrow> ascii ''guest'' | Inr v \<Rightarrow> v)"

text \<open>
  The values of the candidate keys that the payload holds, in the order of the keys: what
  the specification chooses the first of.
\<close>

definition present_claims :: "(ustr \<times> pyval) list \<Rightarrow> pyval list" where
  "present_claims payload = List.map_filter (map_of payload) claim_keys"

section \<open>Properties of the Request Assembler\<close>

lemma map_of_dict_set:
  "map_of (dict_set d k v) k' = (if k' = k then Some v else map_of d k')"
  by (induction d) auto

lemma map_of_set_param:
  "k' \<noteq> ascii ''params'' \<Longrightarrow> map_of (set_param body k v) k' = map_of body k'"
  by (simp add: set_param_def map_of_dict_set split: option.splits pyval.splits)

lemma startswith_iff: "startswith s p \<longleftrightarrow> (\<exists>b. s = p @ b)"
  unfolding startswith_def
proof
  assume "take (length p) s = p"
  then have "s = p @ drop (length p) s" by (metis append_take_drop_id)
  then show "\<exists>b. s = p @ b" by blast
next
  assume "\<exists>b. s = p @ b"
  then show "take (length p) s = p" by auto
qed

lemma contains_iff: "contains s sub \<longleftrightarrow> (\<exists>a b. s = a @ sub @ b)"
proof (induction s)
  case Nil
  then show ?case by auto
next
  case (Cons c cs)
  show ?case
  proof
    assume "contains (c # cs) sub"
    then consider "startswith (c # cs) sub" | "contains cs sub" by auto
    then show "\<exists>a b. c # cs = a @ sub @ b"
    proof cases
      case 1
      then obtain b where "c # cs = sub @ b" using startswith_iff by blast
      then have "c # cs = [] @ sub @ b" by simp
      then show ?thesis by blast
    next
      case 2
      then obtain a b where "cs = a @ sub @ b" using Cons.IH by blast
      then have "c # cs = (c # a) @ sub @ b" by simp
      then show ?thesis by blast
    qed
  next
    assume "\<exists>a b. c # cs = a @ sub @ b"
    then obtain a b where ab: "c # cs = a @ sub @ b" by blast
    show "contains (c # cs) sub"
    proof (cases a)
      case Nil
      then have "startswith (c # cs) sub" using ab startswith_iff by auto
      then show ?thesis by simp
    next
      case (Cons x a')
      then have "cs = a' @ sub @ b" using ab by simp
      then have "contains cs sub" using Cons.IH by blast
      then show ?thesis by simp
    qed
  qed
qed

lemma upt_split3:
  "[0..<a + m + b] = [0..<a] @ [a..<a + m] @ [a + m..<a + m + b]"
proof -
  have "[0..<a + m + b] = [0..<a + m] @ [a + m..<a + m + b]"
    by (rule upt_add_eq_append) simp
  moreover have "[0..<a + m] = [0..<a] @ [a..<a + m]"
    by (rule upt_add_eq_append) simp
  ultimately show ?thesis by simp
qed

lemma ascii_lower_small: "ascii_lower c < 128 \<Longrightarrow> c < 128"
  by (simp add: ascii_lower_def split: if_splits)

text \<open>A stretch of ASCII code points is lower-cased in place, whatever surrounds it.\<close>

lemma py_lower_segment:
  assumes "\<forall>c\<in>set sm. c < 128"
  shows "py_lower rt (sa @ sm @ sb) =
         concat (map (lower_at rt (sa @ sm @ sb)) [0..<length sa]) @ map ascii_lower sm @
         concat (map (lower_at rt (sa @ sm @ sb))
                   [length sa + length sm..<length sa + length sm + length sb])"
proof -
  let ?s = "sa @ sm @ sb"
  have split: "[0..<length ?s] = [0..<length sa] @ [length sa..<length sa + length sm] @
      [length sa + length sm..<length sa + length sm + length sb]"
    using upt_split3[of "length sa" "length sm" "length sb"] by (simp add: add.assoc)
  have mid: "map (lower_at rt ?s) [length sa..<length sa + length sm] =
             map (\<lambda>c. [ascii_lower c]) sm"
  proof (rule nth_equalityI)
    show "length (map (lower_at rt ?s) [length sa..<length sa + length sm]) =
          length (map (\<lambda>c. [ascii_lower c]) sm)"
      by simp
  next
    fix i assume "i < length (map (lower_at rt ?s) [length sa..<length sa + length sm])"
    then have i: "i < length sm" by simp
    then have nth: "?s ! (length sa + i) = sm ! i" by (simp add: nth_append)
    have "sm ! i < 128" using assms i by simp
    then show "map (lower_at rt ?s) [length sa..<length sa + length sm] ! i =
               map (\<lambda>c. [ascii_lower c]) sm ! i"
      using i nth by (simp add: lower_at_def)
  qed
  have "concat (map (\<lambda>c. [ascii_lower c]) sm) = map ascii_lower sm"
    by (induction sm) auto
  then show ?thesis
    unfolding py_lower_def split map_append concat_append mid by simp
qed

lemma contains_ascii_lower:
  assumes "contains (map ascii_lower s) sub" and "\<forall>c\<in>set sub. c < 128"
  shows "contains (py_lower rt s) sub"
proof -
  obtain a b where "map ascii_lower s = a @ sub @ b" using assms(1) contains_iff by blast
  then obtain sa sm sb where s: "s = sa @ sm @ sb" and sm: "map ascii_lower sm = sub"
    by (metis map_eq_append_conv)
  have "\<forall>c\<in>set sm. c < 128"
  proof
    fix c assume "c \<in> set sm"
    then have "ascii_lower c \<in> set sub" using sm by auto
    then show "c < 128" using assms(2) ascii_lower_small by blast
  qed
  then show ?thesis
    unfolding s
    using py_lower_segment[of sm rt sa sb] sm contains_iff[of "py_lower rt (sa @ sm @ sb)" sub]
    by auto
qed

lemma thinking_ascii: "\<forall>c\<in>set (ascii ''thinking''). c < 128"
  by (simp add: ascii_def)

lemma tools_absent_literal:
  "map_of (body_literal rt messages model chat_id kwargs) (ascii ''tools'') = None"
  by (simp add: body_literal_def ascii_def)




text \<open>
  C7. A model name that contains "thinking" in any mix of ASCII upper and lower case (or
  whose lower-casing by the interpreter contains it) gets a request body with no \<open>tools\<close>
  field, whatever the options hold.
\<close>

theorem thinking_never_tools:
  assumes "contains (map ascii_lower model) (ascii ''thinking'') \<or> is_thinking rt model"
  shows "map_of (build_request_body rt messages model chat_id kwargs) (ascii ''tools'') = None"
proof -
  have th: "is_thinking rt model"
    using assms contains_ascii_lower thinking_ascii unfolding is_thinking_def by blast
  have ne: "ascii ''tools'' \<noteq> ascii ''params''" by (simp add: ascii_def)
  show ?thesis
    unfolding build_request_body_def Let_def
    using th by (simp add: map_of_set_param[OF ne] tools_absent_literal split: option.splits)
qed

theorem thinking_never_tools_witness:
  "contains (map ascii_lower (ascii ''GLM-4.5-Thinking'')) (ascii ''thinking'') \<and>
   map_of [(ascii ''tools'', PList [PDict [(ascii ''type'', PStr (ascii ''function''))]])]
     (ascii ''tools'') \<noteq> None \<and>
   map_of (build_request_body example_runtime (PList []) (ascii ''GLM-4.5-Thinking'')
       (ascii ''c1'')
       [(ascii ''tools'', PList [PDict [(ascii ''type'', PStr (ascii ''function''))]])])
     (ascii ''tools'') = None"
proof -
  have h: "contains (map ascii_lower (ascii ''GLM-4.5-Thinking'')) (ascii ''thinking'')"
    by (simp add: ascii_def ascii_lower_def startswith_def)
  show ?thesis
    using h thinking_never_tools[of "ascii ''GLM-4.5-Thinking''" example_runtime "PList []"
        "ascii ''c1''"
        "[(ascii ''tools'', PList [PDict [(ascii ''type'', PStr (ascii ''function''))]])]"]
    by simp
qed



section \<open>Properties of the Stream Decoder\<close>

lemma utf8_decode_error: "utf8_decode errors bs = Inl e \<Longrightarrow> e = UnicodeDecodeError"
  by (induction errors bs rule: utf8_decode.induct)
     (auto split: utf8_step.splits sum.splits if_splits)

lemma utf8_decode_nonempty: "utf8_decode Strict bs = Inr d \<Longrightarrow> bs \<noteq> [] \<Longrightarrow> d \<noteq> []"
  by (cases bs) (auto split: utf8_step.splits sum.splits)

lemma decoded_lines_append: "decoded_lines (xs @ ys) = decoded_lines xs @ decoded_lines ys"
  by (induction xs) (auto simp: latin1_decode_def split: sum.splits)

text \<open>Each non-empty line yields exactly one unit, in the order of arrival.\<close>

lemma decoded_lines_map:
  "decoded_lines ls =
     map (\<lambda>l. (case utf8_decode Strict l of Inr d \<Rightarrow> d | Inl _ \<Rightarrow> map unat l) @ [10])
         (filter (\<lambda>l. l \<noteq> []) ls)"
  by (induction ls) (auto simp: latin1_decode_def split: sum.splits)

lemma utf8_decode_0xFF: "utf8_decode Strict [0xFF] = Inl UnicodeDecodeError"
  by (simp add: utf8_next_def)

lemma utf8_decode_data_ok: "utf8_decode Strict (bytes_of ''data: ok'') = Inr (ascii ''data: ok'')"
  by (simp add: utf8_next_def bytes_of_def ascii_def)

lemma decoded_lines_example:
  "decoded_lines [bytes_of ''data: a'', [], [0xFF], bytes_of ''data: ok''] =
     [ascii ''data: a'' @ [10], [255, 10], ascii ''data: ok'' @ [10]]"
  by (simp add: utf8_next_def bytes_of_def ascii_def latin1_decode_def)

text \<open>
  C9. Every unit the Stream Decoder yields comes from a non-empty line of the transport, is
  that line decoded (as UTF-8, or as Latin-1 when UTF-8 decoding raised) followed by a
  newline, and the decoded text before the newline is not empty.
\<close>

theorem yielded_units:
  assumes "stream_request resp = Inr units" and "u \<in> set units"
  shows "\<exists>line d. line \<in> set (iter_lines resp) \<and> line \<noteq> [] \<and> d \<noteq> [] \<and> u = d @ [10] \<and>
           (utf8_decode Strict line = Inr d \<or>
            (utf8_decode Strict line = Inl UnicodeDecodeError \<and> latin1_decode line = Inr d))"
proof -
  have units: "units = decoded_lines (iter_lines resp)"
    using assms(1) by (simp add: stream_request_def split: if_splits)
  then obtain line where line: "line \<in> set (iter_lines resp)" "line \<noteq> []"
      and u: "u = (case utf8_decode Strict line of Inr d \<Rightarrow> d | Inl _ \<Rightarrow> map unat line) @ [10]"
    using assms(2) unfolding decoded_lines_map by auto
  show ?thesis
  proof (cases "utf8_decode Strict line")
    case (Inr d)
    then have "d \<noteq> []" using utf8_decode_nonempty line(2) by blast
    then show ?thesis using Inr line u by auto
  next
    case (Inl e)
    then have "e = UnicodeDecodeError" using utf8_decode_error by blast
    moreover have "map unat line \<noteq> []" using line(2) by simp
    ultimately show ?thesis using Inl line u by (auto simp: latin1_decode_def)
  qed
qed

theorem yielded_units_witness:
  "stream_request \<lparr>status_code = 200,
       iter_lines = [bytes_of ''data: a'', [], [0xFF], bytes_of ''data: ok'']\<rparr> =
     Inr [ascii ''data: a'' @ [10], [255, 10], ascii ''data: ok'' @ [10]] \<and>
   [255, 10] \<in> set [ascii ''data: a'' @ [10], [255, 10], ascii ''data: ok'' @ [10]] \<and>
   (\<exists>line d. line \<in> set [bytes_of ''data: a'', [], [0xFF], bytes_of ''data: ok''] \<and>
      line \<noteq> [] \<and> d \<noteq> [] \<and> [255, 10] = d @ [10] \<and>
      (utf8_decode Strict line = Inr d \<or>
       (utf8_decode Strict line = Inl UnicodeDecodeError \<and> latin1_decode line = Inr d)))"
proof -
  let ?resp = "\<lparr>status_code = 200,
       iter_lines = [bytes_of ''data: a'', [], [0xFF], bytes_of ''data: ok'']\<rparr>"
  let ?units = "[ascii ''data: a'' @ [10], [255, 10], ascii ''data: ok'' @ [10]]"
  have h1: "stream_request ?resp = Inr ?units"
    by (simp add: stream_request_def decoded_lines_example del: decoded_lines.simps)
  have h2: "[255, 10] \<in> set ?units" by simp
  show ?thesis
    using h1 h2 yielded_units[OF h1 h2] by simp
qed

text \<open>
  C3, as the code has it. After a success status no line ends the stream: the units of the
  lines before a line, of the line itself and of the lines after it follow one another. An
  empty line yields nothing; a line that is not valid UTF-8 is not passed over but yielded in
  its Latin-1 decoding; and every later non-empty line is yielded, a well-formed one as its
  UTF-8 decoding followed by a newline.
\<close>

theorem stream_survives_line:
  assumes "status_code resp = 200" and "iter_lines resp = pre @ [bad] @ post"
  shows "stream_request resp =
           Inr (decoded_lines pre @ decoded_lines [bad] @ decoded_lines post) \<and>
         (bad = [] \<longrightarrow> decoded_lines [bad] = []) \<and>
         (bad \<noteq> [] \<and> utf8_decode Strict bad = Inl UnicodeDecodeError \<longrightarrow>
            decoded_lines [bad] = [map unat bad @ [10]]) \<and>
         (\<forall>l d. l \<in> set post \<and> l \<noteq> [] \<and> utf8_decode Strict l = Inr d \<longrightarrow>
            d @ [10] \<in> set (decoded_lines post)) \<and>
         (\<forall>l. l \<in> set post \<and> l \<noteq> [] \<and> utf8_decode Strict l = Inl UnicodeDecodeError \<longrightarrow>
            map unat l @ [10] \<in> set (decoded_lines post))"
proof -
  have a: "stream_request resp =
           Inr (decoded_lines pre @ decoded_lines [bad] @ decoded_lines post)"
    using assms by (simp only: stream_request_def decoded_lines_append if_False simp_thms)
  have b: "bad = [] \<longrightarrow> decoded_lines [bad] = []" by simp
  have c: "bad \<noteq> [] \<and> utf8_decode Strict bad = Inl UnicodeDecodeError \<longrightarrow>
            decoded_lines [bad] = [map unat bad @ [10]]"
    by (simp add: latin1_decode_def)
  have d: "\<forall>l d. l \<in> set post \<and> l \<noteq> [] \<and> utf8_decode Strict l = Inr d \<longrightarrow>
            d @ [10] \<in> set (decoded_lines post)"
    unfolding decoded_lines_map by force
  have e: "\<forall>l. l \<in> set post \<and> l \<noteq> [] \<and> utf8_decode Strict l = Inl UnicodeDecodeError \<longrightarrow>
            map unat l @ [10] \<in> set (decoded_lines post)"
    unfolding decoded_lines_map by force
  show ?thesis using a b c d e by blast
qed

theorem stream_survives_line_witness:
  "status_code \<lparr>status_code = 200,
       iter_lines = [bytes_of ''data: a''] @ [[0xFF]] @ [bytes_of ''data: ok'']\<rparr> = 200 \<and>
   [0xFF] \<noteq> ([] :: byte list) \<and> utf8_decode Strict [0xFF] = Inl UnicodeDecodeError \<and>
   decoded_lines [[0xFF]] = [[255, 10]] \<and>
   bytes_of ''data: ok'' \<in> set [bytes_of ''data: ok''] \<and> bytes_of ''data: ok'' \<noteq> [] \<and>
   utf8_decode Strict (bytes_of ''data: ok'') = Inr (ascii ''data: ok'') \<and>
   ascii ''data: ok'' @ [10] \<in> set (decoded_lines [bytes_of ''data: ok'']) \<and>
   stream_request \<lparr>status_code = 200,
       iter_lines = [bytes_of ''data: a''] @ [[0xFF]] @ [bytes_of ''data: ok'']\<rparr> =
     Inr (decoded_lines [bytes_of ''data: a''] @ [[255, 10]] @
          decoded_lines [bytes_of ''data: ok''])"
proof -
  let ?resp = "\<lparr>status_code = 200,
       iter_lines = [bytes_of ''data: a''] @ [[0xFF]] @ [bytes_of ''data: ok'']\<rparr>"
  have h1: "status_code ?resp = 200" by simp
  have h2: "iter_lines ?resp = [bytes_of ''data: a''] @ [[0xFF]] @ [bytes_of ''data: ok'']"
    by simp
  have h3: "bytes_of ''data: ok'' \<noteq> []" by (simp add: bytes_of_def)
  have h4: "decoded_lines [[0xFF]] = [[255, 10]]"
    by (simp add: utf8_next_def latin1_decode_def)
  note t = stream_survives_line[OF h1 h2]
  show ?thesis
    using t h3 h4 utf8_decode_0xFF utf8_decode_data_ok by simp
qed

text \<open>
  The line \<open>0xFF\<close> cannot be decoded as UTF-8, and the decoder yields it all the same: the
  stream with it is not the stream without it.
\<close>

theorem undecodable_line_skipped_counterexample:
  "utf8_decode Strict [0xFF] = Inl UnicodeDecodeError \<and>
   stream_request \<lparr>status_code = 200, iter_lines = [[0xFF], bytes_of ''data: ok'']\<rparr> =
     Inr [[255, 10], ascii ''data: ok'' @ [10]] \<and>
   stream_request \<lparr>status_code = 200, iter_lines = [[0xFF], bytes_of ''data: ok'']\<rparr> \<noteq>
     stream_request \<lparr>status_code = 200, iter_lines = [bytes_of ''data: ok'']\<rparr>"
  by (simp add: stream_request_def utf8_next_def latin1_decode_def bytes_of_def ascii_def)

section \<open>Properties of the Response Aggregator\<close>

lemmas json_eval = ascii_def bytes_of_def add_char_def cons_tok_def parse_step_def begin_value_def
  read_key_def json_loads_def startswith_def hex4_def hex_val_def escape_char_def lex_number_def
  is_digit_def digits_val_def py_strip_def is_space_def

lemma json_loads_DONE: "json_loads (ascii ''[DONE]'') = Inl JSONDecodeError"
  by (simp add: json_eval)

lemma json_loads_empty: "json_loads [] = Inl JSONDecodeError"
  by (simp add: json_eval)

text \<open>What the \<open>try\<close> block of \<open>get_content_from_chunk\<close> does, by the shape of the payload.\<close>

lemma chunk_try_cases:
  "chunk_try s =
     (case json_loads s of
        Inl e \<Rightarrow> Inl e
      | Inr (PDict kvs) \<Rightarrow>
          (if map_of kvs (ascii ''type'') = Some (PStr (ascii ''chat:completion'')) then
             (case map_of kvs (ascii ''data'') of
                None \<Rightarrow> Inr (Some (PStr []))
              | Some (PDict d) \<Rightarrow>
                  Inr (Some (case map_of d (ascii ''delta_content'') of
                               None \<Rightarrow> PStr [] | Some v \<Rightarrow> v))
              | Some _ \<Rightarrow> Inl AttributeError)
           else Inr None)
      | Inr _ \<Rightarrow> Inl AttributeError)"
  by (simp add: chunk_try_def bind_err_def py_get_def split: sum.splits pyval.splits option.splits)

lemma chunk_try_other_type:
  assumes "json_loads s = Inr parsed"
    and "py_get parsed (ascii ''type'') PNone \<noteq> Inr (PStr (ascii ''chat:completion''))"
  shows "chunk_try s = Inr None \<or> (\<exists>e. chunk_try s = Inl e)"
  using assms
  by (auto simp: chunk_try_def bind_err_def py_get_def split: sum.splits pyval.splits option.splits)

lemma get_content_data_object:
  assumes "startswith chunk (ascii ''data: '')"
    and "json_loads (py_strip (drop 6 chunk)) = Inr (PDict kvs)"
    and "map_of kvs (ascii ''type'') = Some (PStr (ascii ''chat:completion''))"
  shows "get_content_from_chunk chunk =
           (case map_of kvs (ascii ''data'') of
              None \<Rightarrow> PStr []
            | Some (PDict d) \<Rightarrow>
                (case map_of d (ascii ''delta_content'') of None \<Rightarrow> PStr [] | Some v \<Rightarrow> v)
            | Some _ \<Rightarrow> PStr [])"
proof -
  have "py_strip (drop 6 chunk) \<noteq> ascii ''[DONE]''" "py_strip (drop 6 chunk) \<noteq> []"
    using assms(2) json_loads_DONE json_loads_empty by auto
  then show ?thesis
    using assms
    by (simp add: get_content_from_chunk_def chunk_try_cases
          split: option.splits pyval.splits)
qed

lemma get_content_x:
  \<open>get_content_from_chunk
     (ascii ''data: {"type":"chat:completion","data":{"delta_content":"x"}}'') =
   PStr (ascii ''x'')\<close>
  by (simp add: json_eval get_content_from_chunk_def chunk_try_def bind_err_def py_get_def)

lemma get_content_DONE: \<open>get_content_from_chunk (ascii ''data: [DONE]'') = PStr []\<close>
  by (simp add: json_eval get_content_from_chunk_def)

lemma get_content_not_data: \<open>get_content_from_chunk (ascii ''not-a-data-line'') = PStr []\<close>
  by (simp add: json_eval get_content_from_chunk_def)

text \<open>
  C4. \<open>get_content_from_chunk\<close> returns a value for every line, every exception being caught
  inside it. The value is the empty string when the line does not start with \<open>data: \<close>,
  when the trimmed data part is \<open>[DONE]\<close> or empty, when it is not JSON, and when the JSON
  has no \<open>type\<close> equal to \<open>chat:completion\<close>. Otherwise it is the \<open>delta_content\<close> of the
  \<open>data\<close> object, the empty string when the field or the object is absent (or \<open>data\<close> is
  not an object). The three lines of the scenario give \<open>""\<close>, \<open>""\<close> and \<open>"x"\<close>.
\<close>

theorem get_content_from_chunk_cases:
  \<open>(\<not> startswith chunk (ascii ''data: '') \<longrightarrow> get_content_from_chunk chunk = PStr []) \<and>
   (py_strip (drop 6 chunk) = ascii ''[DONE]'' \<or> py_strip (drop 6 chunk) = [] \<longrightarrow>
      get_content_from_chunk chunk = PStr []) \<and>
   (json_loads (py_strip (drop 6 chunk)) = Inl e \<longrightarrow> get_content_from_chunk chunk = PStr []) \<and>
   (json_loads (py_strip (drop 6 chunk)) = Inr parsed \<and>
    py_get parsed (ascii ''type'') PNone \<noteq> Inr (PStr (ascii ''chat:completion'')) \<longrightarrow>
      get_content_from_chunk chunk = PStr []) \<and>
   (startswith chunk (ascii ''data: '') \<and>
    json_loads (py_strip (drop 6 chunk)) = Inr (PDict kvs) \<and>
    map_of kvs (ascii ''type'') = Some (PStr (ascii ''chat:completion'')) \<longrightarrow>
      get_content_from_chunk chunk =
        (case map_of kvs (ascii ''data'') of
           None \<Rightarrow> PStr []
         | Some (PDict d) \<Rightarrow>
             (case map_of d (ascii ''delta_content'') of None \<Rightarrow> PStr [] | Some v \<Rightarrow> v)
         | Some _ \<Rightarrow> PStr [])) \<and>
   get_content_from_chunk (ascii ''data: [DONE]'') = PStr [] \<and>
   get_content_from_chunk (ascii ''not-a-data-line'') = PStr [] \<and>
   get_content_from_chunk
     (ascii ''data: {"type":"chat:completion","data":{"delta_content":"x"}}'') =
   PStr (ascii ''x'')\<close>
proof -
  have a: "\<not> startswith chunk (ascii ''data: '') \<longrightarrow> get_content_from_chunk chunk = PStr []"
    by (simp add: get_content_from_chunk_def)
  have b: "py_strip (drop 6 chunk) = ascii ''[DONE]'' \<or> py_strip (drop 6 chunk) = [] \<longrightarrow>
      get_content_from_chunk chunk = PStr []"
    by (auto simp: get_content_from_chunk_def)
  have c: "json_loads (py_strip (drop 6 chunk)) = Inl e \<longrightarrow>
      get_content_from_chunk chunk = PStr []"
    by (auto simp: get_content_from_chunk_def chunk_try_cases Let_def)
  have d: "json_loads (py_strip (drop 6 chunk)) = Inr parsed \<and>
    py_get parsed (ascii ''type'') PNone \<noteq> Inr (PStr (ascii ''chat:completion'')) \<longrightarrow>
      get_content_from_chunk chunk = PStr []"
  proof
    assume h: "json_loads (py_strip (drop 6 chunk)) = Inr parsed \<and>
      py_get parsed (ascii ''type'') PNone \<noteq> Inr (PStr (ascii ''chat:completion''))"
    then have "chunk_try (py_strip (drop 6 chunk)) = Inr None \<or>
               (\<exists>e. chunk_try (py_strip (drop 6 chunk)) = Inl e)"
      using chunk_try_other_type by blast
    then show "get_content_from_chunk chunk = PStr []"
      by (auto simp: get_content_from_chunk_def Let_def)
  qed
  show ?thesis
    using a b c d get_content_data_object[of chunk kvs]
      get_content_x get_content_DONE get_content_not_data
    by blast
qed

theorem get_content_from_chunk_cases_witness:
  \<open>\<not> startswith (ascii ''not-a-data-line'') (ascii ''data: '') \<and>
   py_strip (drop 6 (ascii ''data: [DONE]'')) = ascii ''[DONE]'' \<and>
   json_loads (py_strip (drop 6 (ascii ''data: {oops''))) = Inl JSONDecodeError \<and>
   get_content_from_chunk (ascii ''data: {oops'') = PStr [] \<and>
   json_loads (py_strip (drop 6 (ascii ''data: {"type":"ping"}''))) =
     Inr (PDict [(ascii ''type'', PStr (ascii ''ping''))]) \<and>
   py_get (PDict [(ascii ''type'', PStr (ascii ''ping''))]) (ascii ''type'') PNone \<noteq>
     Inr (PStr (ascii ''chat:completion'')) \<and>
   get_content_from_chunk (ascii ''data: {"type":"ping"}'') = PStr [] \<and>
   startswith (ascii ''data: {"type":"chat:completion","data":{"delta_content":"x"}}'')
     (ascii ''data: '') \<and>
   json_loads (py_strip (drop 6
       (ascii ''data: {"type":"chat:completion","data":{"delta_content":"x"}}''))) =
     Inr (PDict [(ascii ''type'', PStr (ascii ''chat:completion'')),
                 (ascii ''data'', PDict [(ascii ''delta_content'', PStr (ascii ''x''))])]) \<and>
   get_content_from_chunk
     (ascii ''data: {"type":"chat:completion","data":{"delta_content":"x"}}'') =
   PStr (ascii ''x'')\<close>
proof -
  have h1: \<open>\<not> startswith (ascii ''not-a-data-line'') (ascii ''data: '')\<close>
    by (simp add: json_eval)
  have h2: \<open>py_strip (drop 6 (ascii ''data: [DONE]'')) = ascii ''[DONE]''\<close>
    by (simp add: json_eval)
  have h3: \<open>json_loads (py_strip (drop 6 (ascii ''data: {oops''))) = Inl JSONDecodeError\<close>
    by (simp add: json_eval)
  have h4: \<open>json_loads (py_strip (drop 6 (ascii ''data: {"type":"ping"}''))) =
     Inr (PDict [(ascii ''type'', PStr (ascii ''ping''))])\<close>
    by (simp add: json_eval)
  have h5: \<open>py_get (PDict [(ascii ''type'', PStr (ascii ''ping''))]) (ascii ''type'') PNone \<noteq>
     Inr (PStr (ascii ''chat:completion''))\<close>
    by (simp add: py_get_def ascii_def)
  have h6: \<open>startswith (ascii ''data: {"type":"chat:completion","data":{"delta_content":"x"}}'')
     (ascii ''data: '')\<close>
    by (simp add: json_eval)
  have h7: \<open>json_loads (py_strip (drop 6
       (ascii ''data: {"type":"chat:completion","data":{"delta_content":"x"}}''))) =
     Inr (PDict [(ascii ''type'', PStr (ascii ''chat:completion'')),
                 (ascii ''data'', PDict [(ascii ''delta_content'', PStr (ascii ''x''))])])\<close>
    by (simp add: json_eval)
  note t1 = get_content_from_chunk_cases[of "ascii ''data: {oops''" JSONDecodeError]
  note t2 = get_content_from_chunk_cases[of \<open>ascii ''data: {"type":"ping"}''\<close> _
      "PDict [(ascii ''type'', PStr (ascii ''ping''))]"]
  note t3 = get_content_from_chunk_cases[of
      \<open>ascii ''data: {"type":"chat:completion","data":{"delta_content":"x"}}''\<close>]
  show ?thesis
    using h1 h2 h3 h4 h5 h6 h7 t1 t2 t3 by blast
qed

text \<open>
  C10. \<open>get_content_from_chunk\<close> never reads the phase. For a \<open>data: \<close> frame whose JSON
  is an object of type \<open>chat:completion\<close> with a \<open>data\<close> object, the result is the
  \<open>delta_content\<close> of that object and nothing else: two such frames with the same
  \<open>delta_content\<close> give the same result, whatever their phases are.
\<close>

theorem phase_not_inspected:
  assumes "startswith c1 (ascii ''data: '')" and "startswith c2 (ascii ''data: '')"
    and "json_loads (py_strip (drop 6 c1)) = Inr (PDict k1)"
    and "json_loads (py_strip (drop 6 c2)) = Inr (PDict k2)"
    and "map_of k1 (ascii ''type'') = Some (PStr (ascii ''chat:completion''))"
    and "map_of k2 (ascii ''type'') = Some (PStr (ascii ''chat:completion''))"
    and "map_of k1 (ascii ''data'') = Some (PDict d1)"
    and "map_of k2 (ascii ''data'') = Some (PDict d2)"
    and "map_of d1 (ascii ''delta_content'') = map_of d2 (ascii ''delta_content'')"
  shows "get_content_from_chunk c1 = get_content_from_chunk c2 \<and>
         get_content_from_chunk c1 =
           (case map_of d1 (ascii ''delta_content'') of None \<Rightarrow> PStr [] | Some v \<Rightarrow> v)"
  using assms get_content_data_object[of c1 k1] get_content_data_object[of c2 k2]
  by simp

theorem phase_not_inspected_witness:
  \<open>map_of [(ascii ''phase'', PStr (ascii ''thinking'')), (ascii ''delta_content'', PStr (ascii ''x''))]
     (ascii ''phase'') \<noteq>
   map_of [(ascii ''phase'', PStr (ascii ''answer'')), (ascii ''delta_content'', PStr (ascii ''x''))]
     (ascii ''phase'') \<and>
   get_content_from_chunk
     (ascii ''data: {"type":"chat:completion","data":{"phase":"thinking","delta_content":"x"}}'') =
   get_content_from_chunk
     (ascii ''data: {"type":"chat:completion","data":{"phase":"answer","delta_content":"x"}}'') \<and>
   get_content_from_chunk
     (ascii ''data: {"type":"chat:completion","data":{"phase":"thinking","delta_content":"x"}}'') =
   PStr (ascii ''x'')\<close>
proof -
  let ?c1 = \<open>ascii
    ''data: {"type":"chat:completion","data":{"phase":"thinking","delta_content":"x"}}''\<close>
  let ?c2 = \<open>ascii
    ''data: {"type":"chat:completion","data":{"phase":"answer","delta_content":"x"}}''\<close>
  let ?d1 = "[(ascii ''phase'', PStr (ascii ''thinking'')),
              (ascii ''delta_content'', PStr (ascii ''x''))]"
  let ?d2 = "[(ascii ''phase'', PStr (ascii ''answer'')),
              (ascii ''delta_content'', PStr (ascii ''x''))]"
  let ?k1 = "[(ascii ''type'', PStr (ascii ''chat:completion'')), (ascii ''data'', PDict ?d1)]"
  let ?k2 = "[(ascii ''type'', PStr (ascii ''chat:completion'')), (ascii ''data'', PDict ?d2)]"
  have s1: "startswith ?c1 (ascii ''data: '')" by (simp add: json_eval)
  have s2: "startswith ?c2 (ascii ''data: '')" by (simp add: json_eval)
  have j1: "json_loads (py_strip (drop 6 ?c1)) = Inr (PDict ?k1)" by (simp add: json_eval)
  have j2: "json_loads (py_strip (drop 6 ?c2)) = Inr (PDict ?k2)" by (simp add: json_eval)
  have t1: "map_of ?k1 (ascii ''type'') = Some (PStr (ascii ''chat:completion''))" by simp
  have t2: "map_of ?k2 (ascii ''type'') = Some (PStr (ascii ''chat:completion''))" by simp
  have a1: "map_of ?k1 (ascii ''data'') = Some (PDict ?d1)" by (simp add: ascii_def)
  have a2: "map_of ?k2 (ascii ''data'') = Some (PDict ?d2)" by (simp add: ascii_def)
  have dd: "map_of ?d1 (ascii ''delta_content'') = map_of ?d2 (ascii ''delta_content'')"
    by (simp add: ascii_def)
  have ph: "map_of ?d1 (ascii ''phase'') \<noteq> map_of ?d2 (ascii ''phase'')"
    by (simp add: ascii_def)
  have dv: "map_of ?d1 (ascii ''delta_content'') = Some (PStr (ascii ''x''))"
    by (simp add: ascii_def)
  note t = phase_not_inspected[OF s1 s2 j1 j2 t1 t2 a1 a2 dd]
  have "get_content_from_chunk ?c1 =
          (case map_of ?d1 (ascii ''delta_content'') of None \<Rightarrow> PStr [] | Some v \<Rightarrow> v)"
    using t by (rule conjunct2)
  then have r: "get_content_from_chunk ?c1 = PStr (ascii ''x'')"
    by (simp only: dv option.case)
  show ?thesis
    using ph t r by blast
qed

text \<open>The loop of \<open>_non_stream_request\<close> adds to the accumulators what the event of the line carries.\<close>

lemma line_try_payload:
  "(case line_try s (fc, rc) of Inl _ \<Rightarrow> (fc, rc) | Inr acc' \<Rightarrow> acc') =
     (fc @ answer_delta (payload_event s), rc @ thinking_delta (payload_event s))"
proof -
  have ne: "ascii ''answer'' \<noteq> ascii ''thinking''" by (simp add: ascii_def)
  show ?thesis
    using ne
    by (auto simp: line_try_def payload_event_def bind_err_def py_get_def py_add_str_def
          delta_text_def split: sum.splits pyval.splits option.splits)
qed

lemma payload_event_DONE: "payload_event (ascii ''[DONE]'') = Ignored"
  by (simp add: payload_event_def json_loads_DONE)

lemma payload_event_empty: "payload_event [] = Ignored"
  by (simp add: payload_event_def json_loads_empty)

lemma aggregate_step:
  "aggregate (line # rest) (fc, rc) =
     aggregate rest (fc @ answer_delta (frame_event line), rc @ thinking_delta (frame_event line))"
proof (cases "startswith line (ascii ''data: '')")
  case False
  then show ?thesis by (simp add: frame_event_def)
next
  case True
  show ?thesis
  proof (cases "py_strip (drop 6 line) \<in> set [ascii ''[DONE]'', []]")
    case skip: True
    then have "payload_event (py_strip (drop 6 line)) = Ignored"
      using payload_event_DONE payload_event_empty by auto
    then show ?thesis using True skip by (simp add: frame_event_def)
  next
    case False
    have "aggregate (line # rest) (fc, rc) =
          aggregate rest (case line_try (py_strip (drop 6 line)) (fc, rc) of
                            Inl _ \<Rightarrow> (fc, rc) | Inr acc' \<Rightarrow> acc')"
      using True False by (simp split: sum.splits)
    then show ?thesis
      using True by (simp only: line_try_payload frame_event_def if_True)
  qed
qed

lemma aggregate_fold:
  "aggregate lines (fc, rc) =
     (fc @ concat (map (\<lambda>l. answer_delta (frame_event l)) lines),
      rc @ concat (map (\<lambda>l. thinking_delta (frame_event l)) lines))"
proof (induction lines arbitrary: fc rc)
  case Nil
  then show ?case by simp
next
  case (Cons line rest)
  show ?case
    by (simp only: aggregate_step Cons.IH) simp
qed

lemma four_frames:
  \<open>non_stream_request \<lparr>status_code = 200, iter_lines =
     [bytes_of ''data: {"type":"chat:completion","data":{"phase":"thinking","delta_content":"A"}}'',
      bytes_of ''data: {"type":"chat:completion","data":{"phase":"answer","delta_content":"Hi"}}'',
      bytes_of ''data: {"type":"chat:completion","data":{"phase":"answer","delta_content":" there"}}'',
      bytes_of ''data: [DONE]'']\<rparr> =
   Inr \<lparr>content = ascii ''Hi there'', reasoning_content = Some (ascii ''A'')\<rparr>\<close>
  by (simp add: json_eval non_stream_request_def stream_request_def utf8_next_def line_try_def
        bind_err_def py_get_def py_add_str_def)

text \<open>
  The same four frames written without the blank after the colon are not \<open>data: \<close> frames:
  the loop passes over all of them.
\<close>

lemma four_frames_without_blank:
  \<open>non_stream_request \<lparr>status_code = 200, iter_lines =
     [bytes_of ''data:{"type":"chat:completion","data":{"phase":"thinking","delta_content":"A"}}'',
      bytes_of ''data:{"type":"chat:completion","data":{"phase":"answer","delta_content":"Hi"}}'',
      bytes_of ''data:{"type":"chat:completion","data":{"phase":"answer","delta_content":" there"}}'',
      bytes_of ''data:[DONE]'']\<rparr> =
   Inr \<lparr>content = [], reasoning_content = None\<rparr>\<close>
  by (simp add: json_eval non_stream_request_def stream_request_def utf8_next_def)

text \<open>
  C2. Non-streaming aggregation is the fold the specification describes: over the lines
  the Stream Decoder yields, the thinking events add their delta to the reasoning
  accumulator, the answer events to the content accumulator, every other line adds
  nothing; the result is the trimmed content and, when the reasoning accumulator is not
  empty, the trimmed reasoning (else none). A failed request is passed on. The four frames
  thinking "A", answer "Hi", answer " there", [DONE] give content "Hi there" and reasoning "A".
\<close>

theorem non_stream_aggregation:
  \<open>non_stream_request resp =
     (case stream_request resp of
        Inl e \<Rightarrow> Inl e
      | Inr lines \<Rightarrow> Inr (spec_aggregate lines)) \<and>
   non_stream_request \<lparr>status_code = 200, iter_lines =
     [bytes_of ''data: {"type":"chat:completion","data":{"phase":"thinking","delta_content":"A"}}'',
      bytes_of ''data: {"type":"chat:completion","data":{"phase":"answer","delta_content":"Hi"}}'',
      bytes_of ''data: {"type":"chat:completion","data":{"phase":"answer","delta_content":" there"}}'',
      bytes_of ''data: [DONE]'']\<rparr> =
   Inr \<lparr>content = ascii ''Hi there'', reasoning_content = Some (ascii ''A'')\<rparr>\<close>
proof -
  have "non_stream_request resp =
     (case stream_request resp of
        Inl e \<Rightarrow> Inl e
      | Inr lines \<Rightarrow> Inr (spec_aggregate lines))"
    by (simp add: non_stream_request_def spec_aggregate_def aggregate_fold Let_def
          split: sum.splits)
  then show ?thesis using four_frames by blast
qed

theorem non_stream_aggregation_witness:
  \<open>stream_request \<lparr>status_code = 200, iter_lines =
     [bytes_of ''data: {"type":"chat:completion","data":{"phase":"thinking","delta_content":" A"}}'',
      bytes_of ''ping'',
      bytes_of ''data: {"type":"chat:completion","data":{"phase":"other","delta_content":"no"}}'',
      bytes_of ''data: {"type":"chat:completion","data":{"phase":"answer","delta_content":"ok "}}'']\<rparr> =
     Inr [ascii ''data: {"type":"chat:completion","data":{"phase":"thinking","delta_content":" A"}}'' @ [10],
          ascii ''ping'' @ [10],
          ascii ''data: {"type":"chat:completion","data":{"phase":"other","delta_content":"no"}}'' @ [10],
          ascii ''data: {"type":"chat:completion","data":{"phase":"answer","delta_content":"ok "}}'' @ [10]] \<and>
   spec_aggregate
     [ascii ''data: {"type":"chat:completion","data":{"phase":"thinking","delta_content":" A"}}'' @ [10],
      ascii ''ping'' @ [10],
      ascii ''data: {"type":"chat:completion","data":{"phase":"other","delta_content":"no"}}'' @ [10],
      ascii ''data: {"type":"chat:completion","data":{"phase":"answer","delta_content":"ok "}}'' @ [10]] =
     \<lparr>content = ascii ''ok'', reasoning_content = Some (ascii ''A'')\<rparr> \<and>
   non_stream_request \<lparr>status_code = 200, iter_lines =
     [bytes_of ''data: {"type":"chat:completion","data":{"phase":"thinking","delta_content":" A"}}'',
      bytes_of ''ping'',
      bytes_of ''data: {"type":"chat:completion","data":{"phase":"other","delta_content":"no"}}'',
      bytes_of ''data: {"type":"chat:completion","data":{"phase":"answer","delta_content":"ok "}}'']\<rparr> =
     Inr \<lparr>content = ascii ''ok'', reasoning_content = Some (ascii ''A'')\<rparr>\<close>
proof -
  let ?resp = \<open>\<lparr>status_code = 200, iter_lines =
     [bytes_of ''data: {"type":"chat:completion","data":{"phase":"thinking","delta_content":" A"}}'',
      bytes_of ''ping'',
      bytes_of ''data: {"type":"chat:completion","data":{"phase":"other","delta_content":"no"}}'',
      bytes_of ''data: {"type":"chat:completion","data":{"phase":"answer","delta_content":"ok "}}'']\<rparr>\<close>
  let ?lines = \<open>[ascii ''data: {"type":"chat:completion","data":{"phase":"thinking","delta_content":" A"}}'' @ [10],
      ascii ''ping'' @ [10],
      ascii ''data: {"type":"chat:completion","data":{"phase":"other","delta_content":"no"}}'' @ [10],
      ascii ''data: {"type":"chat:completion","data":{"phase":"answer","delta_content":"ok "}}'' @ [10]]\<close>
  have h1: "stream_request ?resp = Inr ?lines"
    by (simp add: stream_request_def utf8_next_def bytes_of_def ascii_def)
  have h2: "spec_aggregate ?lines =
     \<lparr>content = ascii ''ok'', reasoning_content = Some (ascii ''A'')\<rparr>"
    by (simp add: json_eval spec_aggregate_def frame_event_def payload_event_def delta_text_def)
  show ?thesis
    using h1 h2 non_stream_aggregation[of ?resp] by simp
qed

end
